theory Spec2Isabelle
  imports Complex_Main
begin

section \<open>Data model\<close>

text \<open>
  The class \<open>Departementale\<close> of \<open>traffic_jam_simulation.py\<close>: the six constructor
  arguments and the clock \<open>t\<close> that the plotting methods reset before their loop.
  \<open>L\<close>, \<open>nb_cars\<close> and \<open>vmax\<close> are Python integers. \<open>tmax\<close>, \<open>dt\<close>, \<open>proba_slow\<close>
  and \<open>t\<close> are Python numbers; they are embedded as exact reals, so the rounding of
  floating-point additions is not part of this model.
\<close>

record departementale =
  L :: int
  nb_cars :: int
  vmax :: int
  tmax :: real
  dt :: real
  proba_slow :: real
  t :: real

text \<open>
  \<open>cars\<close> is a two-column integer array: row \<open>ix\<close> is \<open>[position, velocity]\<close>, read in
  the source as \<open>car[0]\<close> and \<open>car[1]\<close>. A row is a pair, the array a list of rows.
  The entries are 64-bit in the source; the model uses unbounded integers, which agree
  as long as no entry leaves the 64-bit range.
\<close>

type_synonym car = "int \<times> int"

datatype error = IndexError | ValueError

section \<open>Arithmetic of the source\<close>

text \<open>
  \<open>%\<close> on an array entry and a Python integer: the result has the sign of the divisor,
  as \<open>mod\<close> on \<open>int\<close> has; for a zero divisor the array library returns 0 (with a
  warning), where \<open>mod\<close> would return the dividend.
\<close>

definition np_mod :: "int \<Rightarrow> int \<Rightarrow> int" where
  "np_mod a b = (if b = 0 then 0 else a mod b)"

text \<open>\<open>range(start, stop, step)\<close> for a positive step.\<close>

definition py_range :: "int \<Rightarrow> int \<Rightarrow> int \<Rightarrow> int list" where
  "py_range start stop step =
     map (\<lambda>k. start + step * int k) [0..<nat ((stop - start + step - 1) div step)]"

section \<open>Occupancy and density\<close>

text \<open>
  \<open>__road\<close>: a row of \<open>L\<close> zeros with a 1 written at each car's position. The source's
  array has shape \<open>[1, L]\<close>; the model keeps its only row. An index \<open>i\<close> with
  \<open>-L \<le> i < 0\<close> addresses cell \<open>i + L\<close>, any index outside \<open>[-L, L)\<close> raises
  \<open>IndexError\<close>, and a negative \<open>L\<close> makes the allocation raise \<open>ValueError\<close>.
\<close>

definition cell :: "int \<Rightarrow> int \<Rightarrow> int" where
  "cell n i = (if i < 0 then i + n else i)"

fun road_loop :: "int \<Rightarrow> car list \<Rightarrow> real list \<Rightarrow> error + real list" where
  "road_loop n [] r = Inr r"
| "road_loop n (car # cars) r =
     (if 0 \<le> cell n (fst car) \<and> cell n (fst car) < n
      then road_loop n cars (r[nat (cell n (fst car)) := 1])
      else Inl IndexError)"

definition road :: "departementale \<Rightarrow> car list \<Rightarrow> error + real list" where
  "road self cars =
     (if L self < 0 then Inl ValueError
      else road_loop (L self) cars (replicate (nat (L self)) 0))"

text \<open>
  \<open>__traffic_density\<close>: the loop \<open>for k in range(2, self.L - 2)\<close> writes
  \<open>r[k-2]/4 + r[k-1]/2 + r[k] + r[k+1]/2 + r[k+2]/4\<close> at index \<open>k\<close> of a fresh row of
  zeros. The weights are powers of two, so the sums are exact in the source as well.
\<close>

definition smooth :: "real list \<Rightarrow> nat \<Rightarrow> real" where
  "smooth r k = r ! (k - 2) / 4 + r ! (k - 1) / 2 + r ! k + r ! (k + 1) / 2 + r ! (k + 2) / 4"

definition traffic_density :: "departementale \<Rightarrow> car list \<Rightarrow> error + real list" where
  "traffic_density self cars =
     (case road self cars of
        Inl e \<Rightarrow> Inl e
      | Inr r \<Rightarrow>
          Inr (fold (\<lambda>k traffic. traffic[k := smooth r k])
                    [2..<nat (L self - 2)]
                    (replicate (nat (L self)) 0)))"

text \<open>
  Vocabulary for the statements about the density: cell \<open>j\<close> is occupied when some car's
  position addresses it, and a cell \<open>c\<close> is isolated with margin \<open>m\<close> when it is occupied
  and no other cell at distance at most \<open>m\<close> is.
\<close>

definition occupied :: "departementale \<Rightarrow> car list \<Rightarrow> nat \<Rightarrow> bool" where
  "occupied self cars j = (\<exists>c \<in> set cars. nat (cell (L self) (fst c)) = j)"


section \<open>Creation of the cars\<close>

text \<open>
  \<open>np.random.choice(a, size)\<close> with the generator made explicit: \<open>us i\<close> is the
  \<open>i\<close>-th uniform draw, reduced to an index of \<open>a\<close>. A negative \<open>size\<close> raises.
\<close>

definition choice :: "int list \<Rightarrow> int \<Rightarrow> (nat \<Rightarrow> nat) \<Rightarrow> error + int list" where
  "choice a sz us =
     (if sz < 0 then Inl ValueError
      else Inr (map (\<lambda>i. a ! (us i mod length a)) [0..<nat sz]))"

definition create_cars :: "departementale \<Rightarrow> (nat \<Rightarrow> nat) \<Rightarrow> error + car list" where
  "create_cars self us =
     (case choice [1, 2, 3] (nb_cars self) us of
        Inl e \<Rightarrow> Inl e
      | Inr vs \<Rightarrow> Inr (zip (py_range 1 (nb_cars self * 2) 2) vs))"

section \<open>One tick\<close>

text \<open>
  \<open>__simulation\<close>, lines 79 to 82: the successor of the car in row \<open>ix\<close> is row
  \<open>ix + 1\<close>, and row 0 for the last row.
\<close>

definition next_car :: "car list \<Rightarrow> nat \<Rightarrow> car" where
  "next_car cars ix =
     (if int ix = int (length cars) - 1 then cars ! 0 else cars ! (ix + 1))"

text \<open>
  Lines 84 to 87: the free-flow candidate \<open>(car[0] + car[1]) % L\<close>, replaced by
  \<open>next_car[0] - 1\<close> when the row is not the last one and the candidate lies at or
  less than 3 cells beyond the successor.
\<close>

definition next_position :: "departementale \<Rightarrow> car list \<Rightarrow> nat \<Rightarrow> int" where
  "next_position self cars ix =
     (let car = cars ! ix;
          free = np_mod (fst car + snd car) (L self)
      in if int ix \<noteq> int (length cars) - 1
            \<and> free \<ge> fst (next_car cars ix)
            \<and> free - fst (next_car cars ix) < 3
         then fst (next_car cars ix) - 1
         else free)"

text \<open>Lines 90 to 94: the velocity written back, \<open>p\<close> being the binomial draw.\<close>

definition new_velocity :: "departementale \<Rightarrow> int \<Rightarrow> int \<Rightarrow> int \<Rightarrow> int \<Rightarrow> int" where
  "new_velocity self p old_position pos v =
     (if pos < old_position then v
      else min ((pos - old_position) + 1) (vmax self) * p
           + max ((pos - old_position) - 1) 0 * (1 - p))"

text \<open>
  The body of the loop \<open>for ix, car in enumerate(cars)\<close>. The rows are views of the
  array, so every assignment is an update of the list in place; \<open>ps ix\<close> is the draw
  \<open>np.random.binomial(1, 1 - proba_slow)\<close> made for row \<open>ix\<close>.
\<close>

definition sim_body ::
  "(nat \<Rightarrow> int) \<Rightarrow> nat \<Rightarrow> departementale \<times> car list \<Rightarrow> departementale \<times> car list" where
  "sim_body ps ix = (\<lambda>(self, cars).
     let p = ps ix;
         old_position = fst (cars ! ix);
         pos = next_position self cars ix;
         cars = cars[ix := (pos, snd (cars ! ix))];
         cars = cars[ix := (fst (cars ! ix),
                            new_velocity self p old_position (fst (cars ! ix)) (snd (cars ! ix)))];
         cars = (if pos > L self then cars[ix := (0, snd (cars ! ix))] else cars)
     in (self\<lparr>t := t self + dt self\<rparr>, cars))"

definition simulation ::
  "departementale \<Rightarrow> (nat \<Rightarrow> int) \<Rightarrow> car list \<Rightarrow> departementale \<times> car list" where
  "simulation self ps cars = fold (sim_body ps) [0..<length cars] (self, cars)"

text \<open>
  The same loop with lines 96 and 97 (the reset of a position beyond \<open>L\<close>) deleted;
  it is not in the source and only serves to state that those lines have no effect.
\<close>

definition sim_body_noguard ::
  "(nat \<Rightarrow> int) \<Rightarrow> nat \<Rightarrow> departementale \<times> car list \<Rightarrow> departementale \<times> car list" where
  "sim_body_noguard ps ix = (\<lambda>(self, cars).
     let p = ps ix;
         old_position = fst (cars ! ix);
         pos = next_position self cars ix;
         cars = cars[ix := (pos, snd (cars ! ix))];
         cars = cars[ix := (fst (cars ! ix),
                            new_velocity self p old_position (fst (cars ! ix)) (snd (cars ! ix)))]
     in (self\<lparr>t := t self + dt self\<rparr>, cars))"

definition simulation_noguard ::
  "departementale \<Rightarrow> (nat \<Rightarrow> int) \<Rightarrow> car list \<Rightarrow> departementale \<times> car list" where
  "simulation_noguard self ps cars = fold (sim_body_noguard ps) [0..<length cars] (self, cars)"

text \<open>
  What one tick leaves in row \<open>ix\<close>, computed from the array as it was before the tick.
  It is derived from the loop below (\<open>simulation_eq\<close>), not assumed.
\<close>

definition car_after :: "departementale \<Rightarrow> (nat \<Rightarrow> int) \<Rightarrow> car list \<Rightarrow> nat \<Rightarrow> car" where
  "car_after self ps cars ix =
     (let pos = next_position self cars ix
      in (if pos > L self then 0 else pos,
          new_velocity self (ps ix) (fst (cars ! ix)) pos (snd (cars ! ix))))"

section \<open>A run\<close>

text \<open>
  The loop shared by \<open>linear_plot\<close>, \<open>polar_plot\<close> and \<open>combined_plot\<close>:
  \<open>while self.t < self.tmax: self.__simulation(cars); ...\<close>, the rendering calling
  \<open>__road(cars)\<close>, whose exception ends the run. The loop need not end (\<open>dt \<le> 0\<close>, or
  no car), so it is given fuel: \<open>run_loop n\<close> is the list of arrays left by the first
  \<open>n\<close> ticks. \<open>bs\<close> is the sequence of binomial draws and \<open>cur\<close> the number of draws
  already consumed.
\<close>

fun run_loop ::
  "nat \<Rightarrow> (nat \<Rightarrow> int) \<Rightarrow> nat \<Rightarrow> departementale \<Rightarrow> car list \<Rightarrow> car list list" where
  "run_loop 0 bs cur self cars = []"
| "run_loop (Suc fuel) bs cur self cars =
     (if t self < tmax self
      then (case simulation self (\<lambda>ix. bs (cur + ix)) cars of
              (self', cars') \<Rightarrow>
                cars' # (case road self' cars' of
                           Inl e \<Rightarrow> []
                         | Inr r \<Rightarrow> run_loop fuel bs (cur + length cars) self' cars'))
      else [])"

definition run ::
  "nat \<Rightarrow> departementale \<Rightarrow> (nat \<Rightarrow> nat) \<Rightarrow> (nat \<Rightarrow> int) \<Rightarrow> error + car list list" where
  "run fuel self us bs =
     (case create_cars self us of
        Inl e \<Rightarrow> Inl e
      | Inr cars \<Rightarrow> Inr (cars # run_loop fuel bs 0 (self\<lparr>t := 0\<rparr>) cars))"

section \<open>Concrete roads\<close>

definition d10 :: departementale where
  "d10 = \<lparr>L = 10, nb_cars = 2, vmax = 3, tmax = 200, dt = 1 / 10, proba_slow = 0, t = 0\<rparr>"


text \<open>A finite list of binomial draws, read as a sequence (0 beyond its end).\<close>

definition draws :: "int list \<Rightarrow> nat \<Rightarrow> int" where
  "draws xs i = (if i < length xs then xs ! i else 0)"

definition go :: "nat \<Rightarrow> int" where
  "go ix = 1"

definition slow :: "nat \<Rightarrow> int" where
  "slow ix = 0"

section \<open>The loop, row by row\<close>

lemma next_position_cong:
  assumes "L self' = L self" "length cs = length cars" "cs ! ix = cars ! ix"
    "int ix \<noteq> int (length cars) - 1 \<Longrightarrow> cs ! (ix + 1) = cars ! (ix + 1)"
  shows "next_position self' cs ix = next_position self cars ix"
  using assms by (auto simp: next_position_def next_car_def Let_def)

lemma new_velocity_cong:
  "vmax self' = vmax self \<Longrightarrow> new_velocity self' p a b c = new_velocity self p a b c"
  by (simp add: new_velocity_def)

lemma sim_body_step:
  assumes k: "k < length cars"
    and cs: "cs = map (car_after self ps cars) [0..<k] @ drop k cars"
    and s: "L self' = L self" "vmax self' = vmax self"
  shows "sim_body ps k (self', cs) =
         (self'\<lparr>t := t self' + dt self'\<rparr>,
          map (car_after self ps cars) [0..<Suc k] @ drop (Suc k) cars)"
proof -
  have len: "length cs = length cars" using k cs by simp
  have atk: "cs ! k = cars ! k" using k cs by (simp add: nth_append)
  have atk1: "int k \<noteq> int (length cars) - 1 \<Longrightarrow> cs ! (k + 1) = cars ! (k + 1)"
    using k cs by (simp add: nth_append)
  have np: "next_position self' cs k = next_position self cars k"
    by (rule next_position_cong [OF s(1) len atk atk1])
  have upd: "cs[k := x] = map (car_after self ps cars) [0..<k] @ x # drop (Suc k) cars" for x
    using k cs by (simp add: list_update_append Cons_nth_drop_Suc [symmetric])
  have kl: "k < length cs" using k len by simp
  have "sim_body ps k (self', cs) =
        (self'\<lparr>t := t self' + dt self'\<rparr>, cs[k := car_after self ps cars k])"
    using kl
    by (simp add: sim_body_def Let_def np atk new_velocity_cong [OF s(2)] car_after_def s(1))
  then show ?thesis
    by (simp add: upd)
qed

lemma fold_sim_body:
  "k \<le> length cars \<Longrightarrow>
   fold (sim_body ps) [0..<k] (self, cars) =
     (self\<lparr>t := t self + real k * dt self\<rparr>,
      map (car_after self ps cars) [0..<k] @ drop k cars)"
proof (induction k)
  case 0
  show ?case by simp
next
  case (Suc k)
  then have k: "k < length cars" by simp
  have "fold (sim_body ps) [0..<Suc k] (self, cars) =
        sim_body ps k (self\<lparr>t := t self + real k * dt self\<rparr>,
                       map (car_after self ps cars) [0..<k] @ drop k cars)"
    using Suc by simp
  also have "\<dots> = (self\<lparr>t := t self + real (Suc k) * dt self\<rparr>,
      map (car_after self ps cars) [0..<Suc k] @ drop (Suc k) cars)"
    by (subst sim_body_step [OF k refl]) (simp_all add: algebra_simps)
  finally show ?case .
qed

lemma simulation_eq:
  "simulation self ps cars =
     (self\<lparr>t := t self + real (length cars) * dt self\<rparr>,
      map (car_after self ps cars) [0..<length cars])"
  by (simp add: simulation_def fold_sim_body)

lemma simulation_nth:
  "ix < length cars \<Longrightarrow> snd (simulation self ps cars) ! ix = car_after self ps cars ix"
  by (simp add: simulation_eq)

section \<open>Clock and frame\<close>



text \<open>
  C10. A tick changes nothing of the object but the clock: \<open>L\<close>, \<open>nb_cars\<close>, \<open>vmax\<close>,
  \<open>tmax\<close>, \<open>dt\<close> and \<open>proba_slow\<close> keep their values, and the array keeps its number of
  rows.
\<close>

theorem simulation_frame:
  "L (fst (simulation self ps cars)) = L self
   \<and> nb_cars (fst (simulation self ps cars)) = nb_cars self
   \<and> vmax (fst (simulation self ps cars)) = vmax self
   \<and> tmax (fst (simulation self ps cars)) = tmax self
   \<and> dt (fst (simulation self ps cars)) = dt self
   \<and> proba_slow (fst (simulation self ps cars)) = proba_slow self
   \<and> fst (simulation self ps cars) = self\<lparr>t := t (fst (simulation self ps cars))\<rparr>
   \<and> length (snd (simulation self ps cars)) = length cars"
  by (simp add: simulation_eq)

theorem simulation_frame_witness:
  "L (fst (simulation d10 go [(1, 1), (6, 1)])) = 10
   \<and> vmax (fst (simulation d10 go [(1, 1), (6, 1)])) = 3
   \<and> length (snd (simulation d10 go [(1, 1), (6, 1)])) = 2"
  using simulation_frame [of d10 go "[(1, 1), (6, 1)]"] by (simp add: d10_def)

section \<open>Velocity\<close>

text \<open>
  C3. For every row \<open>ix\<close> processed in a tick, with \<open>next_position\<close> the position
  committed for it (line 89): if that position is numerically less than the old one the
  velocity is left as it was; otherwise, with \<open>advance = next_position - old_position\<close>
  and the draw \<open>p = ps ix\<close>, the new velocity is
  \<open>p * min(advance + 1, vmax) + (1 - p) * max(advance - 1, 0)\<close>. The position left in
  the row is the committed one, or 0 where it exceeds \<open>L\<close>.
\<close>

theorem velocity_update_rule:
  assumes "ix < length cars"
  shows "snd (snd (simulation self ps cars) ! ix) =
           (if next_position self cars ix < fst (cars ! ix) then snd (cars ! ix)
            else ps ix * min (next_position self cars ix - fst (cars ! ix) + 1) (vmax self)
                 + (1 - ps ix) * max (next_position self cars ix - fst (cars ! ix) - 1) 0)
         \<and> fst (snd (simulation self ps cars) ! ix) =
           (if next_position self cars ix > L self then 0 else next_position self cars ix)"
  using assms
  by (simp add: simulation_nth car_after_def Let_def new_velocity_def mult.commute)

theorem velocity_update_rule_witness:
  "(0::nat) < length [(1, 1), (6, 1 :: int)]
   \<and> next_position d10 [(1, 1), (6, 1)] 0 = 2
   \<and> snd (snd (simulation d10 go [(1, 1), (6, 1)]) ! 0) = 2
   \<and> snd (snd (simulation d10 slow [(1, 1), (6, 1)]) ! 0) = 0
   \<and> snd (snd (simulation d10 go [(1, 1), (8, 3)]) ! 1) = 3"
proof -
  have h: "(0::nat) < length [(1, 1), (6, 1 :: int)]" by simp
  have n: "next_position d10 [(1, 1), (6, 1)] 0 = 2"
    by (simp add: next_position_def next_car_def np_mod_def d10_def)
  have h1: "(1::nat) < length [(1, 1), (8, 3 :: int)]" by simp
  have n1: "next_position d10 [(1, 1), (8, 3)] 1 = 1"
    by (simp add: next_position_def next_car_def np_mod_def d10_def)
  show ?thesis
    using h n velocity_update_rule [OF h, of d10 go] velocity_update_rule [OF h, of d10 slow]
      velocity_update_rule [OF h1, of d10 go] n1
    by (simp add: d10_def go_def slow_def)
qed

section \<open>Positions\<close>

lemma np_mod_bounds: "0 < b \<Longrightarrow> 0 \<le> np_mod a b \<and> np_mod a b < b"
  by (simp add: np_mod_def)

lemma next_position_less: "0 < L self \<Longrightarrow> next_position self cars ix < L self"
  using np_mod_bounds [of "L self" "fst (cars ! ix) + snd (cars ! ix)"]
  by (auto simp: next_position_def Let_def)

lemma next_position_last:
  "int ix = int (length cars) - 1 \<Longrightarrow>
   next_position self cars ix = np_mod (fst (cars ! ix) + snd (cars ! ix)) (L self)"
  by (simp add: next_position_def Let_def)

lemma next_position_clamped:
  assumes "ix + 1 < length cars"
  shows "\<not> (next_position self cars ix \<ge> fst (cars ! (ix + 1))
            \<and> next_position self cars ix - fst (cars ! (ix + 1)) < 3)"
  using assms by (auto simp: next_position_def next_car_def Let_def)

text \<open>
  C1. On a road of positive length, after a tick no row but the last holds a position
  \<open>p\<close> with \<open>p \<ge> q\<close> and \<open>p - q < 3\<close>, where \<open>q\<close> is the position its successor had
  before the tick. The last row is the one row left out of the check: it always takes
  its free-flow position \<open>(position + velocity) mod L\<close>, whatever its successor's.
\<close>

theorem no_passing:
  assumes "0 < L self"
  shows "(\<forall>ix. ix + 1 < length cars \<longrightarrow>
            \<not> (fst (snd (simulation self ps cars) ! ix) \<ge> fst (cars ! (ix + 1))
               \<and> fst (snd (simulation self ps cars) ! ix) - fst (cars ! (ix + 1)) < 3))
         \<and> (cars \<noteq> [] \<longrightarrow>
              fst (snd (simulation self ps cars) ! (length cars - 1)) =
                (fst (last cars) + snd (last cars)) mod L self)"
proof (intro conjI allI impI)
  fix ix
  assume ix: "ix + 1 < length cars"
  then have "fst (snd (simulation self ps cars) ! ix) = next_position self cars ix"
    using next_position_less [OF assms, of cars ix]
    by (simp add: simulation_nth car_after_def Let_def)
  then show "\<not> (fst (snd (simulation self ps cars) ! ix) \<ge> fst (cars ! (ix + 1))
               \<and> fst (snd (simulation self ps cars) ! ix) - fst (cars ! (ix + 1)) < 3)"
    using next_position_clamped [OF ix] by simp
next
  assume ne: "cars \<noteq> []"
  then have l: "length cars - 1 < length cars" "int (length cars - 1) = int (length cars) - 1"
    by (auto simp: Suc_leI)
  have "fst (snd (simulation self ps cars) ! (length cars - 1)) =
        next_position self cars (length cars - 1)"
    using next_position_less [OF assms, of cars "length cars - 1"] l(1)
    by (simp add: simulation_nth car_after_def Let_def)
  also have "\<dots> = np_mod (fst (cars ! (length cars - 1)) + snd (cars ! (length cars - 1))) (L self)"
    by (rule next_position_last [OF l(2)])
  also have "\<dots> = (fst (last cars) + snd (last cars)) mod L self"
    using assms ne by (simp add: np_mod_def last_conv_nth)
  finally show "fst (snd (simulation self ps cars) ! (length cars - 1)) =
                (fst (last cars) + snd (last cars)) mod L self" .
qed

theorem no_passing_witness:
  "0 < L d10
   \<and> fst (snd (simulation d10 go [(1, 3), (3, 1)]) ! 0) = 2
   \<and> \<not> (fst (snd (simulation d10 go [(1, 3), (3, 1)]) ! 0) \<ge> fst ([(1, 3), (3, 1)] ! (0 + 1))
        \<and> fst (snd (simulation d10 go [(1, 3), (3, 1)]) ! 0) - fst ([(1, 3), (3, 1)] ! (0 + 1)) < 3)
   \<and> fst (snd (simulation d10 go [(1, 1), (9, 2)]) ! 1) = 1"
proof -
  have h: "0 < L d10" by (simp add: d10_def)
  have c: "fst (snd (simulation d10 go [(1, 3), (3, 1)]) ! 0) = 2"
    by code_simp
  show ?thesis
    using h c no_passing [OF h, of "[(1, 3), (3, 1)]" go] no_passing [OF h, of "[(1, 1), (9, 2)]" go]
    by (simp add: d10_def)
qed

section \<open>The reset of a position beyond L\<close>

lemma sim_body_noguard_eq:
  assumes "0 < L self"
  shows "sim_body_noguard ps ix (self, cars) = sim_body ps ix (self, cars)"
  using next_position_less [OF assms, of cars ix]
  by (simp add: sim_body_def sim_body_noguard_def Let_def)

lemma sim_body_L: "L (fst (sim_body ps ix sc)) = L (fst sc)"
  by (cases sc) (simp add: sim_body_def Let_def)

lemma fold_sim_body_L: "L (fst (fold (sim_body ps) ixs sc)) = L (fst sc)"
  by (induction ixs arbitrary: sc) (simp_all add: sim_body_L)

lemma fold_noguard_eq:
  "0 < L (fst sc) \<Longrightarrow> fold (sim_body_noguard ps) ixs sc = fold (sim_body ps) ixs sc"
proof (induction ixs arbitrary: sc)
  case Nil
  show ?case by simp
next
  case (Cons ix ixs)
  obtain self cars where sc: "sc = (self, cars)" by (cases sc)
  have e: "sim_body_noguard ps ix sc = sim_body ps ix sc"
    using Cons.prems by (simp add: sc sim_body_noguard_eq)
  have "0 < L (fst (sim_body ps ix sc))"
    using Cons.prems by (simp add: sim_body_L)
  then show ?case
    using Cons.IH [of "sim_body ps ix sc"] by (simp add: e)
qed

text \<open>
  C8. On a road of positive length, the position committed for every row is below \<open>L\<close>
  when lines 96 and 97 are reached, so the reset to 0 is never taken: the row keeps the
  committed position, and the tick computes the same result as the loop without those
  two lines.
\<close>

theorem guard_noop:
  assumes "0 < L self"
  shows "(\<forall>ix < length cars. next_position self cars ix < L self
            \<and> fst (snd (simulation self ps cars) ! ix) = next_position self cars ix)
         \<and> simulation self ps cars = simulation_noguard self ps cars"
proof -
  have "next_position self cars ix < L self
        \<and> fst (snd (simulation self ps cars) ! ix) = next_position self cars ix"
    if "ix < length cars" for ix
    using that next_position_less [OF assms, of cars ix]
    by (simp add: simulation_nth car_after_def Let_def)
  moreover have "simulation self ps cars = simulation_noguard self ps cars"
    using assms by (simp add: simulation_def simulation_noguard_def fold_noguard_eq)
  ultimately show ?thesis by blast
qed

theorem guard_noop_witness:
  "0 < L d10
   \<and> simulation_noguard d10 go [(1, 1), (9, 2)] = simulation d10 go [(1, 1), (9, 2)]
   \<and> snd (simulation_noguard d10 go [(1, 1), (9, 2)]) = [(2, 2), (1, 2)]"
proof -
  have h: "0 < L d10" by (simp add: d10_def)
  have c: "snd (simulation d10 go [(1, 1), (9, 2)]) = [(2, 2), (1, 2)]"
    by code_simp
  show ?thesis
    using h c guard_noop [OF h, of "[(1, 1), (9, 2)]" go] by simp
qed

section \<open>Creation\<close>

lemma py_range_odd: "0 \<le> n \<Longrightarrow> py_range 1 (n * 2) 2 = map (\<lambda>k. 1 + 2 * int k) [0..<nat n]"
  by (simp add: py_range_def)

lemma choice_123:
  "0 \<le> n \<Longrightarrow> \<exists>vs. choice [1, 2, 3] n us = Inr vs \<and> length vs = nat n \<and> set vs \<subseteq> {1, 2, 3}"
proof -
  have "[1, 2, 3 :: int] ! (k mod 3) \<in> {1, 2, 3}" for k :: nat
  proof -
    have "k mod 3 = 0 \<or> k mod 3 = 1 \<or> k mod 3 = 2" by arith
    then show ?thesis by auto
  qed
  then show ?thesis if "0 \<le> n"
    using that by (auto simp: choice_def)
qed

text \<open>
  C7. For a non-negative \<open>nb_cars\<close>, the creation returns exactly \<open>nb_cars\<close> rows whose
  positions are \<open>1, 3, 5, ..., 2 * nb_cars - 1\<close>, strictly increasing, and whose
  velocities each lie in \<open>{1, 2, 3}\<close>; the result does not depend on \<open>vmax\<close>.
\<close>

theorem create_cars_init:
  assumes "0 \<le> nb_cars self"
  shows "\<exists>cars. create_cars self us = Inr cars
           \<and> int (length cars) = nb_cars self
           \<and> map fst cars = map (\<lambda>k. 2 * int k + 1) [0..<nat (nb_cars self)]
           \<and> sorted_wrt (<) (map fst cars)
           \<and> (\<forall>c \<in> set cars. snd c \<in> {1, 2, 3})
           \<and> create_cars (self\<lparr>vmax := v\<rparr>) us = create_cars self us"
proof -
  obtain vs where vs: "choice [1, 2, 3] (nb_cars self) us = Inr vs"
    "length vs = nat (nb_cars self)" "set vs \<subseteq> {1, 2, 3}"
    using choice_123 [OF assms] by blast
  let ?ps = "map (\<lambda>k. 1 + 2 * int k) [0..<nat (nb_cars self)]"
  let ?cars = "zip ?ps vs"
  have c: "create_cars self us = Inr ?cars"
    using assms by (simp add: create_cars_def vs(1) py_range_odd)
  have l: "int (length ?cars) = nb_cars self"
    using assms by (simp add: vs(2))
  have f: "map fst ?cars = map (\<lambda>k. 2 * int k + 1) [0..<nat (nb_cars self)]"
    by (simp add: vs(2) add.commute)
  have s: "sorted_wrt (<) (map fst ?cars)"
    unfolding f by (simp add: sorted_wrt_iff_nth_less)
  have "map snd ?cars = vs" by (simp add: vs(2))
  then have "snd ` set ?cars = set vs" by (metis set_map)
  then have v: "\<forall>c \<in> set ?cars. snd c \<in> {1, 2, 3}" using vs(3) by blast
  have i: "create_cars (self\<lparr>vmax := v\<rparr>) us = create_cars self us"
    by (simp add: create_cars_def cong: sum.case_cong)
  show ?thesis using c l f s v i by blast
qed

theorem create_cars_init_witness:
  "0 \<le> nb_cars d10
   \<and> create_cars d10 (\<lambda>i. i) = Inr [(1, 1), (3, 2)]
   \<and> create_cars (d10\<lparr>vmax := 1\<rparr>) (\<lambda>i. i + 2) = Inr [(1, 3), (3, 1)]"
proof -
  have h: "0 \<le> nb_cars d10" by (simp add: d10_def)
  have c: "create_cars d10 (\<lambda>i. i) = Inr [(1, 1), (3, 2)]"
    "create_cars d10 (\<lambda>i. i + 2) = Inr [(1, 3), (3, 1)]"
    by code_simp+
  from create_cars_init [OF h, of "\<lambda>i. i + 2" 1]
  have "create_cars (d10\<lparr>vmax := 1\<rparr>) (\<lambda>i. i + 2) = create_cars d10 (\<lambda>i. i + 2)"
    by blast
  then show ?thesis using h c by simp
qed

section \<open>Density\<close>

lemma fold_update_length:
  "length (fold (\<lambda>k xs. xs[k := f k]) ks xs) = length xs"
  by (induction ks arbitrary: xs) simp_all

lemma fold_update_nth:
  "b \<le> length xs \<Longrightarrow> i < length xs \<Longrightarrow>
   fold (\<lambda>k xs. xs[k := f k]) [a..<b] xs ! i = (if a \<le> i \<and> i < b then f i else xs ! i)"
proof (induction b)
  case 0
  show ?case by simp
next
  case (Suc b)
  show ?case
  proof (cases "a \<le> b")
    case True
    then show ?thesis
      using Suc by (auto simp: nth_list_update fold_update_length)
  next
    case False
    then show ?thesis by auto
  qed
qed

lemma road_loop_Inr:
  "road_loop n cars r = Inr r' \<Longrightarrow>
   length r' = length r
   \<and> (\<forall>c \<in> set cars. 0 \<le> cell n (fst c) \<and> cell n (fst c) < n)
   \<and> (\<forall>j < length r. r' ! j = (if \<exists>c \<in> set cars. nat (cell n (fst c)) = j then 1 else r ! j))"
proof (induction cars arbitrary: r)
  case Nil
  then show ?case by simp
next
  case (Cons car cars)
  then have ok: "0 \<le> cell n (fst car)" "cell n (fst car) < n"
    and rec: "road_loop n cars (r[nat (cell n (fst car)) := 1]) = Inr r'"
    by (auto split: if_splits)
  from Cons.IH [OF rec] ok show ?case
    by (auto simp: nth_list_update)
qed

lemma road_loop_valid:
  "(\<forall>c \<in> set cars. 0 \<le> cell n (fst c) \<and> cell n (fst c) < n) \<Longrightarrow>
   \<exists>r'. road_loop n cars r = Inr r'"
  by (induction cars arbitrary: r) auto

lemma road_loop_Inl:
  "road_loop n cars r = Inl e \<Longrightarrow>
   e = IndexError \<and> (\<exists>c \<in> set cars. \<not> (0 \<le> cell n (fst c) \<and> cell n (fst c) < n))"
  by (induction cars arbitrary: r) (auto split: if_splits)

lemma road_Inr:
  assumes "road self cars = Inr r"
  shows "0 \<le> L self" "length r = nat (L self)"
    "\<forall>c \<in> set cars. 0 \<le> cell (L self) (fst c) \<and> cell (L self) (fst c) < L self"
    "\<forall>j < nat (L self). r ! j = (if occupied self cars j then 1 else 0)"
proof -
  from assms have l: "0 \<le> L self"
    and rl: "road_loop (L self) cars (replicate (nat (L self)) 0) = Inr r"
    by (auto simp: road_def split: if_splits)
  from road_loop_Inr [OF rl] l
  show "0 \<le> L self" "length r = nat (L self)"
    "\<forall>c \<in> set cars. 0 \<le> cell (L self) (fst c) \<and> cell (L self) (fst c) < L self"
    "\<forall>j < nat (L self). r ! j = (if occupied self cars j then 1 else 0)"
    by (auto simp: occupied_def)
qed

lemma traffic_density_Inr:
  assumes "traffic_density self cars = Inr d"
  shows "\<exists>r. road self cars = Inr r \<and> length d = nat (L self)
           \<and> (\<forall>k < nat (L self). d ! k = (if 2 \<le> k \<and> k < nat (L self - 2) then smooth r k else 0))"
proof -
  from assms obtain r where r: "road self cars = Inr r"
    and d: "d = fold (\<lambda>k traffic. traffic[k := smooth r k]) [2..<nat (L self - 2)]
                     (replicate (nat (L self)) 0)"
    by (auto simp: traffic_density_def split: sum.splits)
  have "length d = nat (L self)"
    by (simp add: d fold_update_length)
  moreover have "d ! k = (if 2 \<le> k \<and> k < nat (L self - 2) then smooth r k else 0)"
    if "k < nat (L self)" for k
    unfolding d using that by (subst fold_update_nth) auto
  ultimately show ?thesis using r by blast
qed


lemma cell_valid: "0 \<le> n \<Longrightarrow> (0 \<le> cell n i \<and> cell n i < n) = (- n \<le> i \<and> i < n)"
  by (auto simp: cell_def)

lemma traffic_density_Inl:
  assumes "traffic_density self cars = Inl e" "0 \<le> L self"
  shows "e = IndexError \<and> (\<exists>c \<in> set cars. \<not> (- L self \<le> fst c \<and> fst c < L self))"
proof -
  from assms have "road_loop (L self) cars (replicate (nat (L self)) 0) = Inl e"
    by (auto simp: traffic_density_def road_def split: sum.splits if_splits)
  from road_loop_Inl [OF this] show ?thesis
    using assms(2) by (simp add: cell_valid)
qed

text \<open>
  C5. On a road with \<open>L \<ge> 4\<close> the density is defined exactly when every position is an
  index of the road (\<open>-L \<le> position < L\<close>; otherwise \<open>IndexError\<close>), and then it has
  \<open>L\<close> entries of which those at 0, 1, \<open>L - 2\<close> and \<open>L - 1\<close> are 0, whatever the cars.
\<close>

theorem density_boundary:
  assumes "4 \<le> L self"
  shows "case traffic_density self cars of
           Inl e \<Rightarrow> e = IndexError \<and> (\<exists>c \<in> set cars. \<not> (- L self \<le> fst c \<and> fst c < L self))
         | Inr d \<Rightarrow> (\<forall>c \<in> set cars. - L self \<le> fst c \<and> fst c < L self)
                    \<and> length d = nat (L self)
                    \<and> d ! 0 = 0 \<and> d ! 1 = 0
                    \<and> d ! nat (L self - 2) = 0 \<and> d ! nat (L self - 1) = 0"
proof (cases "traffic_density self cars")
  case (Inl e)
  then show ?thesis
    using traffic_density_Inl [OF Inl] assms by simp
next
  case (Inr d)
  from traffic_density_Inr [OF Inr] obtain r where r: "road self cars = Inr r"
    and len: "length d = nat (L self)"
    and nth: "\<forall>k < nat (L self). d ! k = (if 2 \<le> k \<and> k < nat (L self - 2) then smooth r k else 0)"
    by blast
  have v: "\<forall>c \<in> set cars. - L self \<le> fst c \<and> fst c < L self"
    using road_Inr(3) [OF r] road_Inr(1) [OF r] by (simp add: cell_valid)
  have "d ! 0 = 0" "d ! 1 = 0" "d ! nat (L self - 2) = 0" "d ! nat (L self - 1) = 0"
    using nth assms by auto
  then show ?thesis
    using Inr v len by simp
qed



theorem density_boundary_witness:
  "4 \<le> L d10
   \<and> traffic_density d10 [(0, 1), (1, 1), (- 1, 1), (8, 1)] =
       Inr [0, 0, 3 / 4, 1 / 4, 0, 0, 1 / 4, 3 / 4, 0, 0]
   \<and> [0, 0, 3 / 4, 1 / 4, 0, 0, 1 / 4, 3 / 4, 0, 0 :: real] ! nat (L d10 - 1) = 0"
proof -
  have h: "4 \<le> L d10" by (simp add: d10_def)
  have c: "traffic_density d10 [(0, 1), (1, 1), (- 1, 1), (8, 1)] =
           Inr [0, 0, 3 / 4, 1 / 4, 0, 0, 1 / 4, 3 / 4, 0, 0]"
    by code_simp
  show ?thesis
    using h c density_boundary [OF h, of "[(0, 1), (1, 1), (- 1, 1), (8, 1)]"]
    by (simp add: d10_def)
qed



section \<open>Runs\<close>


lemma road_cong: "L a = L b \<Longrightarrow> road a cars = road b cars"
  by (simp add: road_def)




section \<open>Bounds\<close>

text \<open>
  C2 does not hold of the code. The run below is \<open>Departementale(L=10, nb_cars=2, vmax=3)\<close>
  with both initial velocities drawn as 1 and the binomial draws
  0, 1, 0, 0, 0, 1, 0, 0, 0, 1, 0, 0, 0, 1. In the sixth tick the car in row 0, standing at
  position 2 with velocity 0, has its successor at position 0 (it has wrapped around), so
  line 87 puts it at \<open>0 - 1 = -1\<close>. In the seventh tick it moves to \<open>(-1 + 0) mod 10 = 9\<close>,
  an advance of 10, and the draw 0 gives it the velocity \<open>max (10 - 1) 0 = 9\<close>, above
  \<open>vmax = 3\<close>.
\<close>

theorem bounds_violated:
  "run 7 d10 (\<lambda>i. 0) (draws [0, 1, 0, 0, 0, 1, 0, 0, 0, 1, 0, 0, 0, 1]) =
     Inr [[(1, 1), (3, 1)], [(2, 0), (4, 2)], [(2, 0), (6, 1)], [(2, 0), (7, 2)],
          [(2, 0), (9, 1)], [(2, 0), (0, 1)], [(- 1, 0), (1, 0)], [(9, 9), (1, 1)]]
   \<and> L d10 = 10 \<and> vmax d10 = 3"
  by code_simp

end
